theory Spec2Isabelle
  imports Complex_Main "HOL-Library.Sublist"
begin

section \<open>Strings and character classes\<close>

text \<open>
  Python strings are modelled as \<open>string\<close> (a \<open>char list\<close>), one \<open>char\<close> per code
  point, for code points below 256. The character classes are those of Python's \<open>re\<close>
  module on \<open>str\<close> patterns and of \<open>str.strip\<close>, restricted to that range:
  \<open>\<bsol>s\<close> and \<open>strip\<close> use \<open>str.isspace\<close>, \<open>\<bsol>w\<close> is \<open>str.isalnum\<close> or an underscore.
\<close>

definition is_space :: "char \<Rightarrow> bool" where
  "is_space c = (of_char c \<in> ({9..13} \<union> {28..32} \<union> {133, 160} :: nat set))"

definition is_digit :: "char \<Rightarrow> bool" where
  "is_digit c = (of_char c \<in> ({48..57} :: nat set))"

definition is_word :: "char \<Rightarrow> bool" where
  "is_word c = (of_char c \<in> ({48..57} \<union> {65..90} \<union> {95} \<union> {97..122}
      \<union> {170, 178, 179, 181, 185, 186, 188, 189, 190}
      \<union> {192..214} \<union> {216..246} \<union> {248..255} :: nat set))"

text \<open>\<open>re.IGNORECASE\<close> on the literal \<open>rated at\<close>: below code point 256 only the
  letters A to Z fold onto a to z.\<close>

definition ascii_lower :: "char \<Rightarrow> char" where
  "ascii_lower c =
     (case map_of (zip ''ABCDEFGHIJKLMNOPQRSTUVWXYZ'' ''abcdefghijklmnopqrstuvwxyz'') c of
        Some l \<Rightarrow> l
      | None \<Rightarrow> c)"

section \<open>Score extraction (\<open>SwarmAgents._extract_score\<close>)\<close>

text \<open>
  \<^verbatim>\<open>m = re.search(r"rated at\s+([0-9.]+)\/10", text, re.IGNORECASE)\<close>

  \<open>match_score_at\<close> is the match attempt anchored at the start of its argument and returns
  group 1. The greedy runs are maximal runs: a whitespace run must be followed by a
  character of \<open>[0-9.]\<close> and the numeral by a slash, so no shorter run can match.
  \<open>re_search_score\<close> tries every start position from the left, as \<open>re.search\<close> does.
\<close>

definition is_score_char :: "char \<Rightarrow> bool" where
  "is_score_char c = (is_digit c \<or> c = CHR ''.'')"

definition match_score_at :: "string \<Rightarrow> string option" where
  "match_score_at s =
     (if map ascii_lower (take 8 s) = ''rated at'' then
        (let r = drop 8 s;
             ws = takeWhile is_space r;
             r2 = dropWhile is_space r;
             num = takeWhile is_score_char r2;
             r3 = dropWhile is_score_char r2
         in if ws \<noteq> [] \<and> num \<noteq> [] \<and> take 3 r3 = ''/10'' then Some num else None)
      else None)"

fun re_search_score :: "string \<Rightarrow> string option" where
  "re_search_score [] = None"
| "re_search_score (c # cs) =
     (case match_score_at (c # cs) of Some num \<Rightarrow> Some num | None \<Rightarrow> re_search_score cs)"

text \<open>
  \<open>float(m.group(1))\<close> on a string of digits and dots: Python accepts it when it has at
  most one dot and at least one digit, and raises \<open>ValueError\<close> otherwise (\<open>None\<close> here).
  The value is the decimal value of the numeral; the rounding of that value to a
  binary64 float is not modelled.
\<close>

definition digit_val :: "char \<Rightarrow> nat" where
  "digit_val c = of_char c - 48"

definition dec_val :: "string \<Rightarrow> nat" where
  "dec_val ds = foldl (\<lambda>a c. 10 * a + digit_val c) 0 ds"

definition py_float :: "string \<Rightarrow> real option" where
  "py_float t =
     (let ip = takeWhile is_digit t; r = dropWhile is_digit t
      in case r of
           [] \<Rightarrow> (if ip = [] then None else Some (real (dec_val ip)))
         | c # fp \<Rightarrow>
             (if c = CHR ''.'' \<and> list_all is_digit fp \<and> (ip \<noteq> [] \<or> fp \<noteq> [])
              then Some (real (dec_val (ip @ fp)) / 10 ^ length fp) else None))"

definition extract_score :: "string \<Rightarrow> real" where
  "extract_score text =
     (case re_search_score text of
        Some num \<Rightarrow> (case py_float num of Some v \<Rightarrow> v | None \<Rightarrow> - 1)
      | None \<Rightarrow> - 1)"

text \<open>
  The pattern read declaratively: \<open>rated_match pre num t\<close> says that the regular
  expression matches \<open>t\<close> at offset \<open>length pre\<close> with group 1 equal to \<open>num\<close>.
\<close>

definition rated_match :: "string \<Rightarrow> string \<Rightarrow> string \<Rightarrow> bool" where
  "rated_match pre num t =
     (\<exists>kw ws post. t = pre @ kw @ ws @ num @ ''/10'' @ post
        \<and> map ascii_lower kw = ''rated at''
        \<and> ws \<noteq> [] \<and> list_all is_space ws
        \<and> num \<noteq> [] \<and> list_all is_score_char num)"

section \<open>Function-level blocks (\<open>_func_blocks\<close>, \<open>_norm\<close> in \<open>fixer_node\<close>)\<close>

text \<open>
  \<^verbatim>\<open>pat = re.compile(r"^def\s+(\w+)\s*\([^)]*\):[\s\S]*?(?=^def\s+\w+\s*\(|\Z)", re.MULTILINE)\<close>
  \<^verbatim>\<open>return {m.group(1): m.group(0).strip() for m in pat.finditer(src)}\<close>

  \<open>match_def_head\<close> is \<^verbatim>\<open>def\s+(\w+)\s*\(\<close> anchored at the start of its argument (the
  lookahead uses the same prefix): it returns the name and the text after the
  parenthesis. The classes \<open>\<bsol>s\<close>, \<open>\<bsol>w\<close> and the parenthesis are disjoint, so each greedy
  run is the maximal one. \<open>match_def_header\<close> continues with \<^verbatim>\<open>[^)]*\):\<close>.
\<close>

definition match_def_head :: "string \<Rightarrow> (string \<times> string) option" where
  "match_def_head s =
     (if take 3 s = ''def'' then
        (let r = drop 3 s;
             ws = takeWhile is_space r;
             r1 = dropWhile is_space r;
             name = takeWhile is_word r1;
             r2 = dropWhile is_space (dropWhile is_word r1)
         in if ws \<noteq> [] \<and> name \<noteq> [] then
              (case r2 of
                 [] \<Rightarrow> None
               | c # r3 \<Rightarrow> if c = CHR ''('' then Some (name, r3) else None)
            else None)
      else None)"

definition match_def_header :: "string \<Rightarrow> (string \<times> string) option" where
  "match_def_header s =
     (case match_def_head s of
        None \<Rightarrow> None
      | Some (name, r3) \<Rightarrow>
          (case dropWhile (\<lambda>c. c \<noteq> CHR '')'') r3 of
             c1 # c2 # r4 \<Rightarrow> if c2 = CHR '':'' then Some (name, r4) else None
           | _ \<Rightarrow> None))"

text \<open>
  The lazy body \<^verbatim>\<open>[\s\S]*?\<close> stops at the first position where the lookahead holds:
  a line start (the previous character is a newline) where \<open>match_def_head\<close> succeeds,
  or the end of the string. The flag says whether the previous character was a newline.
\<close>

fun scan_body :: "bool \<Rightarrow> string \<Rightarrow> string \<times> string" where
  "scan_body bol [] = ([], [])"
| "scan_body bol (c # cs) =
     (if bol \<and> match_def_head (c # cs) \<noteq> None then ([], c # cs)
      else (let (body, rest) = scan_body (c = CHR ''\<newline>'') cs in (c # body, rest)))"

lemma match_def_head_shorter:
  "match_def_head s = Some (name, r) \<Longrightarrow> length r < length s"
proof -
  assume a: "match_def_head s = Some (name, r)"
  define r2 where "r2 = dropWhile is_space (dropWhile is_word (dropWhile is_space (drop 3 s)))"
  from a have "\<exists>c. r2 = c # r"
    unfolding match_def_head_def Let_def r2_def
    by (auto split: if_splits list.splits)
  then have "length r < length r2" by auto
  also have "length r2 \<le> length (drop 3 s)"
    unfolding r2_def
    by (meson length_dropWhile_le order_trans)
  finally show ?thesis by simp
qed

lemma match_def_header_shorter:
  "match_def_header s = Some (name, r) \<Longrightarrow> length r < length s"
proof -
  assume a: "match_def_header s = Some (name, r)"
  then obtain r3 where h: "match_def_head s = Some (name, r3)"
    and "\<exists>c1 c2. dropWhile (\<lambda>c. c \<noteq> CHR '')'') r3 = c1 # c2 # r"
    unfolding match_def_header_def
    by (auto split: option.splits list.splits if_splits)
  then have "length r < length (dropWhile (\<lambda>c. c \<noteq> CHR '')'') r3)" by auto
  also have "\<dots> \<le> length r3" by (rule length_dropWhile_le)
  finally show ?thesis using match_def_head_shorter[OF h] by simp
qed

lemma scan_body_rest_le: "length (snd (scan_body bol s)) \<le> length s"
proof (induction s arbitrary: bol)
  case Nil
  show ?case by simp
next
  case (Cons c cs)
  have "length (snd (scan_body (c = CHR ''\<newline>'') cs)) \<le> length cs" by (rule Cons.IH)
  then show ?case by (simp add: split_beta)
qed

text \<open>
  \<open>finditer\<close>: scan from the left; where the pattern matches, yield the name and the
  matched text and go on from the end of the match, otherwise move one character on.
\<close>

function find_blocks :: "bool \<Rightarrow> string \<Rightarrow> (string \<times> string) list" where
  "find_blocks bol [] = []"
| "find_blocks bol (c # cs) =
     (case (if bol then match_def_header (c # cs) else None) of
        Some (name, r) \<Rightarrow>
          (let body = fst (scan_body False r);
               rest = snd (scan_body False r);
               matched = take (length (c # cs) - length r) (c # cs) @ body
           in (name, matched) # find_blocks (last matched = CHR ''\<newline>'') rest)
      | None \<Rightarrow> find_blocks (c = CHR ''\<newline>'') cs)"
  by pat_completeness auto
termination
proof (relation "measure (\<lambda>(bol, s). length s)")
  show "wf (measure (\<lambda>(bol, s). length s))" by simp
next
  fix bol :: bool and c :: char and cs x2 name r body rest matched
  assume "(if bol then match_def_header (c # cs) else None) = Some x2" and "(name, r) = x2"
    and rest: "rest = snd (scan_body False r)"
  then have "match_def_header (c # cs) = Some (name, r)" by (auto split: if_splits)
  from match_def_header_shorter[OF this] scan_body_rest_le[of False r]
  show "((last matched = CHR ''\<newline>'', rest), bol, c # cs) \<in> measure (\<lambda>(bol, s). length s)"
    by (simp add: rest)
next
  fix bol :: bool and c :: char and cs :: string
  show "((c = CHR ''\<newline>'', cs), bol, c # cs) \<in> measure (\<lambda>(bol, s). length s)" by simp
qed

definition strip :: "string \<Rightarrow> string" where
  "strip s = rev (dropWhile is_space (rev (dropWhile is_space s)))"

text \<open>A Python \<open>dict\<close> keeps insertion order; a repeated key keeps its place and takes the new value.\<close>

fun dict_put :: "'k \<Rightarrow> 'v \<Rightarrow> ('k \<times> 'v) list \<Rightarrow> ('k \<times> 'v) list" where
  "dict_put k v [] = [(k, v)]"
| "dict_put k v ((k', v') # d) = (if k = k' then (k, v) # d else (k', v') # dict_put k v d)"

definition func_blocks :: "string \<Rightarrow> (string \<times> string) list" where
  "func_blocks src = foldl (\<lambda>d (name, m). dict_put name (strip m) d) [] (find_blocks True src)"

text \<open>\<^verbatim>\<open>re.sub(r"\s+", "", s)\<close>\<close>

definition norm :: "string \<Rightarrow> string" where
  "norm s = filter (\<lambda>c. \<not> is_space c) s"

text \<open>\<^verbatim>\<open>sep.join(xs)\<close>\<close>

fun join :: "string \<Rightarrow> string list \<Rightarrow> string" where
  "join sep [] = []"
| "join sep [x] = x"
| "join sep (x # y # ys) = x @ sep @ join sep (y # ys)"

text \<open>
  The loop over \<open>new_map.items()\<close> that collects the changed blocks, and the choice of
  the content to write with its fallbacks when the joined text is empty.
\<close>

definition changed_blocks :: "(string \<times> string) list \<Rightarrow> (string \<times> string) list \<Rightarrow> string list" where
  "changed_blocks orig_map new_map =
     foldl (\<lambda>acc (name, block).
              (case map_of orig_map name of
                 Some ob \<Rightarrow> if norm block \<noteq> norm ob then acc @ [strip block] else acc
               | None \<Rightarrow> acc))
       [] new_map"

definition content_to_write :: "string \<Rightarrow> string \<Rightarrow> string" where
  "content_to_write code_content new_code =
     (let orig_map = func_blocks code_content;
          new_map = func_blocks new_code;
          joined = join ''\<newline>\<newline>'' (changed_blocks orig_map new_map)
      in if joined \<noteq> [] then joined
         else
           (let inter = map (\<lambda>(n, b). strip b) (filter (\<lambda>(n, b). map_of orig_map n \<noteq> None) new_map)
            in if length inter = 1 then hd inter
               else if length inter > 1 then hd inter
               else (case new_map of [] \<Rightarrow> strip [] | (n, b) # _ \<Rightarrow> strip b)))"

section \<open>The workflow state (\<open>SwarmState\<close>) and the outside world\<close>

text \<open>
  \<open>SwarmState\<close> is a dictionary with a fixed set of keys; \<open>main\<close> creates it with every
  key present, and LangGraph merges the dictionary a node returns into it key by key.
  The model is a record with one field per key and a node returns the updated record.
  \<open>test_results\<close> is \<open>None\<close> for the empty dictionary \<open>{}\<close> of the initial state and
  \<open>Some\<close> of the three entries that \<open>run_pytest\<close> returns otherwise.
  \<open>current_file_path\<close> is \<open>None\<close> for Python's \<open>None\<close>.
\<close>

record pytest_result =
  success :: bool
  output_text :: string
  return_code :: int

record entry =
  original_path :: string
  dest_path :: string
  mode :: string
  before_score :: real
  after_score :: real
  entry_status :: string

record swarm_state =
  target_dir :: string
  files :: "string list"
  current_file_index :: int
  current_file_path :: "string option"
  current_file_content :: string
  pylint_report :: string
  refactoring_plan :: string
  test_results :: "pytest_result option"
  iteration_count :: int
  max_iterations :: int
  status :: string
  messages :: "string list"
  cooldown_seconds :: int
  disable_llm :: bool
  output_mode :: string
  output_dir :: string
  results :: "entry list"

datatype error = ValueError string | TypeError | IndexError | GraphRecursionError

datatype action_type = ANALYSIS | FIX | DEBUG

text \<open>
  Every call that leaves the program is recorded as an event; the history is the list of
  events so far, the most recent first. \<open>LogExperiment\<close> carries the agent name, the
  model, the action, the prompt and the response of the details, the \<open>success\<close> entry the
  Judge adds to the details, and the status.
\<close>

datatype event =
    LlmInvoke string "string + string"
  | LogExperiment string string action_type string string "bool option" string
  | Sleep int
  | ReadFile string
  | WriteFile string string
  | RunPylint string
  | RunPytest string

text \<open>
  The collaborators outside the program answer as functions of the history, so they may
  depend on everything written or asked before: the language model (\<open>Inl\<close> is the text
  of the exception it raised), opening and reading a file, creating the directories and
  writing a file (\<open>Some\<close> is the text of the exception), and the two subprocesses with
  their standard streams. \<open>abspath\<close>, \<open>relpath\<close> and \<open>path_join\<close> stand for the functions
  of \<open>os.path\<close>. \<open>graph_target_dir\<close> and \<open>model_name\<close> are the arguments of \<open>create_graph\<close>.
\<close>

record env =
  graph_target_dir :: string
  model_name :: string
  abspath :: "string \<Rightarrow> string"
  relpath :: "string \<Rightarrow> string \<Rightarrow> string"
  path_join :: "string \<Rightarrow> string \<Rightarrow> string"
  llm_invoke :: "event list \<Rightarrow> string \<Rightarrow> string + string"
  open_read :: "event list \<Rightarrow> string \<Rightarrow> string + string"
  open_write :: "event list \<Rightarrow> string \<Rightarrow> string \<Rightarrow> string option"
  pylint_proc :: "event list \<Rightarrow> string \<Rightarrow> string + (string \<times> string)"
  pytest_proc :: "event list \<Rightarrow> string \<Rightarrow> string + (int \<times> string \<times> string)"

text \<open>Modelled from the spec: \<open>log_experiment\<close> of \<open>src/utils/logger.py\<close> is not among the
  sources; the spec says each invocation is recorded as an immutable event of the audit
  log, which is a side effect and no part of the control flow.\<close>

definition log_experiment ::
  "string \<Rightarrow> string \<Rightarrow> action_type \<Rightarrow> string \<Rightarrow> string \<Rightarrow> bool option \<Rightarrow> string \<Rightarrow> event list \<Rightarrow> event list" where
  "log_experiment agent_name model_used action input_prompt output_response succ stat h =
     LogExperiment agent_name model_used action input_prompt output_response succ stat # h"

section \<open>The tools (\<open>SwarmTools\<close>)\<close>

definition tools_target_dir :: "env \<Rightarrow> string" where
  "tools_target_dir e = abspath e (graph_target_dir e)"

definition is_safe_path :: "env \<Rightarrow> string \<Rightarrow> bool" where
  "is_safe_path e path = prefix (tools_target_dir e) (abspath e path)"

definition read_file :: "env \<Rightarrow> string \<Rightarrow> event list \<Rightarrow> error + (string \<times> event list)" where
  "read_file e file_path h =
     (if \<not> is_safe_path e file_path then
        Inl (ValueError (''Security Alert: Attempted to read outside target directory: '' @ file_path))
      else
        (case open_read e h file_path of
           Inr content \<Rightarrow> Inr (content, ReadFile file_path # h)
         | Inl ex \<Rightarrow> Inr (''Error reading file '' @ file_path @ '': '' @ ex, ReadFile file_path # h)))"

definition write_file :: "env \<Rightarrow> string \<Rightarrow> string \<Rightarrow> event list \<Rightarrow> error + (string \<times> event list)" where
  "write_file e file_path content h =
     (if \<not> is_safe_path e file_path then
        Inl (ValueError (''Security Alert: Attempted to write outside target directory: '' @ file_path))
      else
        (case open_write e h file_path content of
           None \<Rightarrow> Inr (''Successfully wrote to '' @ file_path, WriteFile file_path content # h)
         | Some ex \<Rightarrow> Inr (''Error writing to '' @ file_path @ '': '' @ ex, WriteFile file_path content # h)))"

definition run_pylint :: "env \<Rightarrow> string \<Rightarrow> event list \<Rightarrow> string \<times> event list" where
  "run_pylint e file_path h =
     (if \<not> is_safe_path e file_path then (''Security Alert: invalid path'', h)
      else
        (case pylint_proc e h file_path of
           Inr (out, err) \<Rightarrow>
             (''STDOUT:\<newline>'' @ out @ ''\<newline>STDERR:\<newline>'' @ err, RunPylint file_path # h)
         | Inl ex \<Rightarrow> (''Error running pylint: '' @ ex, RunPylint file_path # h)))"

definition run_pytest :: "env \<Rightarrow> event list \<Rightarrow> pytest_result \<times> event list" where
  "run_pytest e h =
     (case pytest_proc e h (tools_target_dir e) of
        Inr (rc, out, err) \<Rightarrow>
          (\<lparr>success = (rc = 0),
            output_text = ''STDOUT:\<newline>'' @ out @ ''\<newline>STDERR:\<newline>'' @ err,
            return_code = rc\<rparr>, RunPytest (tools_target_dir e) # h)
      | Inl ex \<Rightarrow>
          (\<lparr>success = False, output_text = ''Error running pytest: '' @ ex, return_code = - 1\<rparr>,
           RunPytest (tools_target_dir e) # h))"

section \<open>The agents (\<open>SwarmAgents\<close>)\<close>

text \<open>\<open>time.sleep\<close> raises \<open>ValueError\<close> on a negative length. The \<open>print\<close> calls of the
  nodes are left out.\<close>

definition py_sleep :: "int \<Rightarrow> event list \<Rightarrow> error + event list" where
  "py_sleep secs h =
     (if secs < 0 then Inl (ValueError ''sleep length must be non-negative'') else Inr (Sleep secs # h))"

definition safe_llm_invoke ::
  "env \<Rightarrow> string \<Rightarrow> string \<Rightarrow> action_type \<Rightarrow> event list \<Rightarrow> (string + string) \<times> event list" where
  "safe_llm_invoke e prompt agent_name action h =
     (case llm_invoke e h prompt of
        Inr content \<Rightarrow>
          (Inr content,
           log_experiment agent_name (model_name e) action prompt content None ''SUCCESS''
             (LlmInvoke prompt (Inr content) # h))
      | Inl ex \<Rightarrow>
          (Inl ex,
           log_experiment agent_name (model_name e) action prompt ex None ''FAILURE''
             (LlmInvoke prompt (Inl ex) # h)))"

definition auditor_prompt :: "string \<Rightarrow> string \<Rightarrow> string \<Rightarrow> string" where
  \<open>auditor_prompt current_file code_content pylint_output =
     ''\<newline>''
     @ ''You are The Auditor, an expert Python code analyst.\<newline>''
     @ ''Your goal is to analyze the following Python file and the pylint report to create a detailed refactoring plan.\<newline>''
     @ ''You must identify bugs, security issues, bad practices (PEP 8), and missing documentation.\<newline>''
     @ ''You must also check if there are corresponding tests. If not, include "Create Unit Tests" in the plan.\<newline>''
     @ ''\<newline>''
     @ ''File Name: ''
     @ current_file
     @ ''\<newline>''
     @ ''\<newline>''
     @ ''Code Content:\<newline>''
     @ ''```python\<newline>''
     @ code_content
     @ ''\<newline>''
     @ ''```\<newline>''
     @ ''\<newline>''
     @ ''Pylint Report:\<newline>''
     @ pylint_output
     @ ''\<newline>''
     @ ''\<newline>''
     @ ''Provide a clear, step-by-step Refactoring Plan.\<newline>''\<close>

definition fixer_prompt :: "string \<Rightarrow> string \<Rightarrow> string \<Rightarrow> string \<Rightarrow> string" where
  \<open>fixer_prompt current_file plan test_feedback code_content =
     ''\<newline>''
     @ ''You are The Fixer, an expert Python developer.\<newline>''
     @ ''You have a Refactoring Plan and the original code.\<newline>''
     @ ''Your task is to rewrite the code to implement the plan and fix any issues.\<newline>''
     @ ''If the plan asks for tests, you should generate a new test file or append tests (but prefer keeping the original file clean and valid).\<newline>''
     @ ''However, for this task, if you are fixing a module, return the FULL CORRECTED CONTENT of the module.\<newline>''
     @ ''\<newline>''
     @ ''If the plan implies creating a SEPARATE test file (e.g. test_file.py), you should mention it, but for now, provide the content for: ''
     @ current_file
     @ ''.\<newline>''
     @ ''(If you need to create a new file, please combine it or handle it intelligently, but the system currently expects the content for ''
     @ current_file
     @ '').\<newline>''
     @ ''\<newline>''
     @ ''Refactoring Plan:\<newline>''
     @ plan
     @ ''\<newline>''
     @ ''\<newline>''
     @ test_feedback
     @ ''\<newline>''
     @ ''\<newline>''
     @ ''Original Code:\<newline>''
     @ ''```python\<newline>''
     @ code_content
     @ ''\<newline>''
     @ ''```\<newline>''
     @ ''\<newline>''
     @ ''Output ONLY the full Python code for ''
     @ current_file
     @ ''. \<newline>''
     @ ''Wrap the code in ```python ... ``` blocks.\<newline>''\<close>

definition copy_mode_suffix :: "string" where
  \<open>copy_mode_suffix  =
     ''\<newline>''
     @ ''Additionally, output ONLY the corrected function(s) that changed compared to the original.\<newline>''
     @ ''Do not include any unchanged functions, imports, or boilerplate.\<newline>''
     @ ''Wrap only the corrected function block(s) in a single ```python``` block.\<newline>''
     @ ''Do not add module docstrings or new functions. Do not rename functions.\<newline>''\<close>

definition auditor_node :: "env \<Rightarrow> swarm_state \<Rightarrow> event list \<Rightarrow> error + (swarm_state \<times> event list)" where
  "auditor_node e s h =
     (case current_file_path s of
        None \<Rightarrow> Inl TypeError
      | Some current_file \<Rightarrow>
          (case read_file e current_file h of
             Inl err \<Rightarrow> Inl err
           | Inr (code_content, h1) \<Rightarrow>
               (let (pylint_output, h2) = run_pylint e current_file h1;
                    prompt = auditor_prompt current_file code_content pylint_output
                in if disable_llm s then
                     (let plan = ''LLM disabled. Apply pylint recommendations, add docstrings/tests.\<newline>''
                                 @ pylint_output
                      in Inr (s\<lparr>refactoring_plan := plan,
                                current_file_content := code_content,
                                pylint_report := pylint_output,
                                status := ''LLM_DISABLED''\<rparr>,
                              log_experiment ''Auditor'' (model_name e) ANALYSIS prompt plan None
                                ''DISABLED'' h2))
                   else
                     (case py_sleep (cooldown_seconds s) h2 of
                        Inl err \<Rightarrow> Inl err
                      | Inr h3 \<Rightarrow>
                          (case safe_llm_invoke e prompt ''Auditor'' ANALYSIS h3 of
                             (Inl ex, h4) \<Rightarrow>
                               Inr (s\<lparr>refactoring_plan :=
                                          ''LLM unavailable. Apply pylint recommendations and add ''
                                          @ ''docstrings/tests.\<newline>'' @ pylint_output,
                                        current_file_content := code_content,
                                        pylint_report := pylint_output,
                                        status := ''LLM_FAILURE''\<rparr>, h4)
                           | (Inr plan, h4) \<Rightarrow>
                               Inr (s\<lparr>refactoring_plan := plan,
                                        current_file_content := code_content,
                                        pylint_report := pylint_output\<rparr>, h4))))))"

text \<open>
  \<^verbatim>\<open>re.search(r"```python\n(.*?)```", response_content, re.DOTALL)\<close>: the leftmost
  opening fence that has a closing fence after it, and the text up to the first closing
  fence. When the leftmost opening fence has no closing fence after it, no later one has.
\<close>

fun split_at_first :: "string \<Rightarrow> string \<Rightarrow> (string \<times> string) option" where
  "split_at_first pat [] = (if pat = [] then Some ([], []) else None)"
| "split_at_first pat (c # cs) =
     (if prefix pat (c # cs) then Some ([], drop (length pat) (c # cs))
      else map_option (\<lambda>(before, after). (c # before, after)) (split_at_first pat cs))"

definition extract_code :: "string \<Rightarrow> string" where
  "extract_code response_content =
     (case split_at_first ''```python\<newline>'' response_content of
        None \<Rightarrow> response_content
      | Some (before, after) \<Rightarrow>
          (case split_at_first ''```'' after of
             None \<Rightarrow> response_content
           | Some (code, rest) \<Rightarrow> code))"

definition path_str :: "string option \<Rightarrow> string" where
  "path_str p = (case p of None \<Rightarrow> ''None'' | Some x \<Rightarrow> x)"

definition test_feedback :: "pytest_result option \<Rightarrow> string" where
  "test_feedback tr =
     (case tr of
        None \<Rightarrow> []
      | Some r \<Rightarrow>
          if \<not> success r then
            ''\<newline>Previous Test Failures:\<newline>'' @ output_text r @ ''\<newline>Fix these errors.''
          else [])"

definition fixer_request :: "swarm_state \<Rightarrow> string" where
  "fixer_request s =
     fixer_prompt (path_str (current_file_path s)) (refactoring_plan s)
       (test_feedback (test_results s)) (current_file_content s)
     @ (if output_mode s = ''copy'' then copy_mode_suffix else [])"

text \<open>The destination of a fragment in copy mode: the file's path relative to the target
  directory, under the output directory.\<close>

definition fragment_path :: "env \<Rightarrow> swarm_state \<Rightarrow> string \<Rightarrow> string" where
  "fragment_path e s current_file =
     (let rel = relpath e current_file (target_dir s);
          dest_root = path_join e (target_dir s) (output_dir s)
      in path_join e dest_root rel)"

text \<open>The part of \<open>fixer_node\<close> after the model has answered: the parsed code is applied
  according to the output mode and one entry is appended to \<open>results\<close>.\<close>

definition apply_output ::
  "env \<Rightarrow> swarm_state \<Rightarrow> string \<Rightarrow> event list \<Rightarrow> error + (swarm_state \<times> event list)" where
  "apply_output e s new_code h =
     (case current_file_path s of
        None \<Rightarrow> Inl TypeError
      | Some current_file \<Rightarrow>
          if output_mode s = ''copy'' then
            (let dest = fragment_path e s current_file
             in case write_file e dest (content_to_write (current_file_content s) new_code) h of
                  Inl err \<Rightarrow> Inl err
                | Inr (msg, h1) \<Rightarrow>
                    (let (updated_pylint, h2) = run_pylint e dest h1;
                         ent = \<lparr>original_path = current_file, dest_path = dest, mode = ''copy'',
                                before_score = extract_score (pylint_report s),
                                after_score = extract_score updated_pylint,
                                entry_status = ''UPDATED''\<rparr>
                     in Inr (s\<lparr>current_file_content := new_code,
                               pylint_report := updated_pylint,
                               results := results s @ [ent]\<rparr>, h2)))
          else
            (case write_file e current_file new_code h of
               Inl err \<Rightarrow> Inl err
             | Inr (msg, h1) \<Rightarrow>
                 (let (updated_pylint, h2) = run_pylint e current_file h1;
                      ent = \<lparr>original_path = current_file, dest_path = current_file,
                             mode = ''overwrite'',
                             before_score = extract_score (pylint_report s),
                             after_score = extract_score updated_pylint,
                             entry_status = ''UPDATED''\<rparr>
                  in Inr (s\<lparr>current_file_content := new_code,
                            pylint_report := updated_pylint,
                            results := results s @ [ent]\<rparr>, h2))))"

definition fixer_node :: "env \<Rightarrow> swarm_state \<Rightarrow> event list \<Rightarrow> error + (swarm_state \<times> event list)" where
  "fixer_node e s h =
     (let code_content = current_file_content s;
          prompt = fixer_request s
      in if disable_llm s then
           Inr (s\<lparr>current_file_content := code_content,
                   pylint_report := pylint_report s,
                   status := ''LLM_DISABLED''\<rparr>,
                log_experiment ''Fixer'' (model_name e) FIX prompt ''LLM disabled'' None ''DISABLED'' h)
         else if status s = ''LLM_FAILURE'' then
           Inr (s\<lparr>current_file_content := code_content, pylint_report := pylint_report s\<rparr>, h)
         else
           (case py_sleep (cooldown_seconds s) h of
              Inl err \<Rightarrow> Inl err
            | Inr h1 \<Rightarrow>
                (case safe_llm_invoke e prompt ''Fixer'' FIX h1 of
                   (Inl ex, h2) \<Rightarrow>
                     Inr (s\<lparr>current_file_content := code_content,
                             pylint_report := pylint_report s,
                             status := ''LLM_FAILURE''\<rparr>, h2)
                 | (Inr response_content, h2) \<Rightarrow>
                     apply_output e s (extract_code response_content) h2)))"

definition judge_node :: "env \<Rightarrow> swarm_state \<Rightarrow> event list \<Rightarrow> error + (swarm_state \<times> event list)" where
  "judge_node e s h =
     (let (res, h1) = run_pytest e h;
          succ = (if output_mode s = ''copy'' then True else success res);
          action = (if succ then ANALYSIS else DEBUG);
          h2 = log_experiment ''Judge'' ''system-tool'' action ''Run Pytest'' (output_text res) (Some succ)
                 (if succ then ''SUCCESS'' else ''FAILURE'') h1
      in Inr (s\<lparr>test_results := Some (res\<lparr>success := succ\<rparr>),
                iteration_count := iteration_count s + 1\<rparr>, h2))"

section \<open>The graph (\<open>create_graph\<close>)\<close>

datatype node = Manager | Auditor | Fixer | Judge | Next_file_processor

datatype route = To_auditor | To_end | Retry | Next_file

definition manager_router :: "swarm_state \<Rightarrow> route" where
  "manager_router s =
     (if current_file_index s < int (length (files s)) then To_auditor else To_end)"

definition judge_router :: "swarm_state \<Rightarrow> route" where
  "judge_router s =
     (let succ = (case test_results s of None \<Rightarrow> False | Some r \<Rightarrow> success r);
          iteration = iteration_count s;
          max_iter = max_iterations s
      in if disable_llm s then Next_file
         else if status s = ''LLM_FAILURE'' then Next_file
         else if succ \<or> iteration \<ge> max_iter then Next_file
         else Retry)"

text \<open>Python indexing of a list by an integer: a negative index counts from the end,
  and an index out of range raises \<open>IndexError\<close>.\<close>

definition py_index :: "'a list \<Rightarrow> int \<Rightarrow> error + 'a" where
  "py_index xs i =
     (if 0 \<le> i \<and> i < int (length xs) then Inr (xs ! nat i)
      else if i < 0 \<and> - int (length xs) \<le> i then Inr (xs ! nat (int (length xs) + i))
      else Inl IndexError)"

definition next_file_node :: "swarm_state \<Rightarrow> error + swarm_state" where
  "next_file_node s =
     (if current_file_index s + 1 < int (length (files s)) then
        (case py_index (files s) (current_file_index s + 1) of
           Inl err \<Rightarrow> Inl err
         | Inr p \<Rightarrow>
             Inr (s\<lparr>current_file_index := current_file_index s + 1,
                     iteration_count := 0,
                     current_file_path := Some p\<rparr>))
      else
        Inr (s\<lparr>current_file_index := current_file_index s + 1,
                iteration_count := 0,
                current_file_path := None\<rparr>))"

text \<open>A node's run and the edge taken after it; \<open>None\<close> is \<open>END\<close>. The manager node is
  the identity on the state.\<close>

fun exec_node :: "env \<Rightarrow> node \<Rightarrow> swarm_state \<Rightarrow> event list \<Rightarrow> error + (swarm_state \<times> event list)" where
  "exec_node e Manager s h = Inr (s, h)"
| "exec_node e Auditor s h = auditor_node e s h"
| "exec_node e Fixer s h = fixer_node e s h"
| "exec_node e Judge s h = judge_node e s h"
| "exec_node e Next_file_processor s h =
     (case next_file_node s of Inl err \<Rightarrow> Inl err | Inr s' \<Rightarrow> Inr (s', h))"

fun next_node :: "node \<Rightarrow> swarm_state \<Rightarrow> node option" where
  "next_node Manager s = (case manager_router s of To_auditor \<Rightarrow> Some Auditor | _ \<Rightarrow> None)"
| "next_node Auditor s = Some Fixer"
| "next_node Fixer s = Some Judge"
| "next_node Judge s = (case judge_router s of Retry \<Rightarrow> Some Fixer | _ \<Rightarrow> Some Next_file_processor)"
| "next_node Next_file_processor s = Some Manager"

text \<open>
  A configuration of a run: the node to run next (\<open>None\<close> after \<open>END\<close>), the state, the
  history of events and the nodes run so far, in the order they ran. \<open>step\<close> runs one
  node and follows its edge; at \<open>END\<close> nothing moves. \<open>steps k\<close> runs \<open>k\<close> nodes.
  \<open>invoke\<close> is \<open>app.invoke\<close> with a budget of node runs (the \<open>recursion_limit\<close> of the
  configuration): it returns the final configuration, or \<open>GraphRecursionError\<close> when the
  budget ends before \<open>END\<close>.
\<close>

record config =
  pos :: "node option"
  st :: swarm_state
  hist :: "event list"
  visited :: "node list"

definition step :: "env \<Rightarrow> config \<Rightarrow> error + config" where
  "step e c =
     (case pos c of
        None \<Rightarrow> Inr c
      | Some n \<Rightarrow>
          (case exec_node e n (st c) (hist c) of
             Inl err \<Rightarrow> Inl err
           | Inr (s', h') \<Rightarrow>
               Inr \<lparr>pos = next_node n s', st = s', hist = h', visited = visited c @ [n]\<rparr>))"

fun steps :: "env \<Rightarrow> nat \<Rightarrow> config \<Rightarrow> error + config" where
  "steps e 0 c = Inr c"
| "steps e (Suc k) c = (case step e c of Inl err \<Rightarrow> Inl err | Inr c' \<Rightarrow> steps e k c')"

definition initial :: "swarm_state \<Rightarrow> config" where
  "initial s = \<lparr>pos = Some Manager, st = s, hist = [], visited = []\<rparr>"

definition invoke :: "env \<Rightarrow> nat \<Rightarrow> swarm_state \<Rightarrow> error + config" where
  "invoke e limit s =
     (case steps e limit (initial s) of
        Inl err \<Rightarrow> Inl err
      | Inr c \<Rightarrow> if pos c = None then Inr c else Inl GraphRecursionError)"

section \<open>Observations on histories and on the nodes run\<close>

fun is_llm :: "event \<Rightarrow> bool" where
  "is_llm (LlmInvoke p r) = True"
| "is_llm ev = False"

fun is_llm_failure :: "event \<Rightarrow> bool" where
  "is_llm_failure (LlmInvoke p (Inl ex)) = True"
| "is_llm_failure ev = False"

fun is_write :: "event \<Rightarrow> bool" where
  "is_write (WriteFile p c) = True"
| "is_write ev = False"

definition llm_requests :: "event list \<Rightarrow> nat" where
  "llm_requests h = length (filter is_llm h)"

definition llm_failed :: "event list \<Rightarrow> bool" where
  "llm_failed h = list_ex is_llm_failure h"

definition writes :: "event list \<Rightarrow> nat" where
  "writes h = length (filter is_write h)"

text \<open>The configuration of a run, which no node is meant to change.\<close>

definition same_control :: "swarm_state \<Rightarrow> swarm_state \<Rightarrow> bool" where
  "same_control s s' \<longleftrightarrow>
     target_dir s' = target_dir s \<and> files s' = files s \<and> max_iterations s' = max_iterations s
     \<and> cooldown_seconds s' = cooldown_seconds s \<and> disable_llm s' = disable_llm s
     \<and> output_mode s' = output_mode s \<and> output_dir s' = output_dir s
     \<and> messages s' = messages s"

text \<open>
  Retry transitions of the file in processing: the edges from the Judge back to the
  Fixer among the nodes run since the last run of the Auditor. \<open>retries_rev\<close> reads the
  nodes run from the most recent one.
\<close>

fun retries_rev :: "node list \<Rightarrow> nat" where
  "retries_rev [] = 0"
| "retries_rev (Auditor # r) = 0"
| "retries_rev (Fixer # Judge # r) = Suc (retries_rev (Judge # r))"
| "retries_rev (n # r) = retries_rev r"

definition retry_transitions :: "node list \<Rightarrow> nat" where
  "retry_transitions v = retries_rev (rev v)"










text \<open>The invariants that tie the retry counter to the nodes run, for any run and for a
  run with the language model disabled.\<close>

definition retry_inv :: "swarm_state \<Rightarrow> config \<Rightarrow> bool" where
  "retry_inv s0 c \<longleftrightarrow>
     (let v = visited c; ic = iteration_count (st c); mx = max_iterations s0;
          r = int (retry_transitions v)
      in max_iterations (st c) = mx \<and> (r = 0 \<or> r < mx)
         \<and> (case pos c of
               None \<Rightarrow> True
             | Some Manager \<Rightarrow> ic = 0
             | Some Auditor \<Rightarrow> ic = 0
             | Some Fixer \<Rightarrow>
                 v \<noteq> [] \<and> ((last v = Auditor \<and> ic = 0) \<or> (last v = Judge \<and> ic = r + 1 \<and> ic < mx))
             | Some Judge \<Rightarrow> v \<noteq> [] \<and> last v = Fixer \<and> r = ic
             | Some Next_file_processor \<Rightarrow> True))"


definition failure_latched :: "config \<Rightarrow> bool" where
  "failure_latched c \<longleftrightarrow>
     (llm_failed (hist c) \<longrightarrow> status (st c) = ''LLM_FAILURE'' \<and> \<not> disable_llm (st c))"

definition results_inv :: "swarm_state \<Rightarrow> config \<Rightarrow> bool" where
  "results_inv s0 c \<longleftrightarrow>
     prefix (results s0) (results (st c))
     \<and> length (results (st c)) = length (results s0) + writes (hist c)
     \<and> list_all (\<lambda>ent. entry_status ent = ''UPDATED'') (drop (length (results s0)) (results (st c)))"



section \<open>Example inputs\<close>

text \<open>
  A sandbox with POSIX paths: \<open>abspath\<close> is the identity on absolute paths, the target
  directory is \<open>/sandbox\<close>, every file reads as one function definition, pylint reports a
  score, and every test run fails with exit code 1. \<open>init_state\<close> is the initial state
  that \<open>main\<close> builds for a worklist.
\<close>

definition example_env :: env where
  "example_env =
     \<lparr>graph_target_dir = ''/sandbox'',
      model_name = ''llama-3.1-8b-instant'',
      abspath = (\<lambda>p. p),
      relpath = (\<lambda>p start. drop (length start + 1) p),
      path_join = (\<lambda>a b. a @ ''/'' @ b),
      llm_invoke = (\<lambda>h prompt. Inr ''```python\<newline>def f(): return 1\<newline>```''),
      open_read = (\<lambda>h p. Inr ''def f(): pass''),
      open_write = (\<lambda>h p content. None),
      pylint_proc = (\<lambda>h p. Inr (''Your code has been rated at 7.50/10'', [])),
      pytest_proc = (\<lambda>h d. Inr (1, ''1 failed'', []))\<rparr>"

definition init_state :: "string list \<Rightarrow> bool \<Rightarrow> string \<Rightarrow> swarm_state" where
  "init_state fs disable out_mode =
     \<lparr>target_dir = ''/sandbox'',
      files = fs,
      current_file_index = 0,
      current_file_path = (case fs of [] \<Rightarrow> None | f # _ \<Rightarrow> Some f),
      current_file_content = [],
      pylint_report = [],
      refactoring_plan = [],
      test_results = None,
      iteration_count = 0,
      max_iterations = 10,
      status = ''STARTING'',
      messages = [],
      cooldown_seconds = 0,
      disable_llm = disable,
      output_mode = out_mode,
      output_dir = ''refactored'',
      results = []\<rparr>"

definition failed_result :: pytest_result where
  "failed_result = \<lparr>success = False, output_text = ''1 failed'', return_code = 1\<rparr>"

section \<open>Properties of score extraction\<close>

lemma spaces_not_score: "is_space c \<Longrightarrow> \<not> is_score_char c"
  by (auto simp: is_space_def is_score_char_def is_digit_def)

lemma slash_not_score: "\<not> is_score_char (CHR ''/'')"
  by (simp add: is_score_char_def is_digit_def)

lemma takeWhile_run:
  assumes "list_all P xs" and "ys = [] \<or> \<not> P (hd ys)"
  shows "takeWhile P (xs @ ys) = xs" and "dropWhile P (xs @ ys) = ys"
  using assms by (cases ys; induction xs; auto)+

lemma match_score_at_complete:
  assumes s: "s = kw @ ws @ num @ ''/10'' @ post" and kw: "map ascii_lower kw = ''rated at''"
    and ws: "ws \<noteq> []" "list_all is_space ws" and num: "num \<noteq> []" "list_all is_score_char num"
  shows "match_score_at s = Some num"
proof -
  have "length (map ascii_lower kw) = 8" by (simp only: kw) simp
  then have len: "length kw = 8" by simp
  have t8: "take 8 s = kw" and d8: "drop 8 s = ws @ (num @ ''/10'' @ post)"
    using len by (simp_all add: s)
  have hdnum: "\<not> is_space (hd (num @ ''/10'' @ post))"
    using num by (cases num) (auto dest: spaces_not_score)
  have a: "takeWhile is_space (drop 8 s) = ws" "dropWhile is_space (drop 8 s) = num @ (''/10'' @ post)"
    unfolding d8 using takeWhile_run[OF ws(2), of "num @ ''/10'' @ post"] hdnum by simp_all
  have b: "takeWhile is_score_char (num @ (''/10'' @ post)) = num"
    "dropWhile is_score_char (num @ (''/10'' @ post)) = ''/10'' @ post"
    using takeWhile_run[OF num(2), of "''/10'' @ post"] slash_not_score by simp_all
  show ?thesis
    unfolding match_score_at_def Let_def a b t8 using kw ws num by simp
qed

lemma list_all_takeWhile: "list_all P (takeWhile P xs)"
  by (induction xs) auto

lemma match_score_at_sound:
  assumes "match_score_at s = Some num"
  shows "\<exists>kw ws post. s = kw @ ws @ num @ ''/10'' @ post \<and> map ascii_lower kw = ''rated at''
        \<and> ws \<noteq> [] \<and> list_all is_space ws \<and> num \<noteq> [] \<and> list_all is_score_char num"
proof -
  define r where "r = drop 8 s"
  define r2 where "r2 = dropWhile is_space r"
  define r3 where "r3 = dropWhile is_score_char r2"
  from assms have H: "map ascii_lower (take 8 s) = ''rated at'' \<and> takeWhile is_space r \<noteq> []
    \<and> num = takeWhile is_score_char r2 \<and> num \<noteq> [] \<and> take 3 r3 = ''/10''"
    unfolding match_score_at_def Let_def r_def r2_def r3_def
    by (simp split: if_splits)
  have kw: "map ascii_lower (take 8 s) = ''rated at''" by (rule H[THEN conjunct1])
  have ws: "takeWhile is_space r \<noteq> []" by (rule H[THEN conjunct2, THEN conjunct1])
  have num: "num = takeWhile is_score_char r2"
    by (rule H[THEN conjunct2, THEN conjunct2, THEN conjunct1])
  have nn: "num \<noteq> []"
    by (rule H[THEN conjunct2, THEN conjunct2, THEN conjunct2, THEN conjunct1])
  have sl: "take 3 r3 = ''/10''"
    by (rule H[THEN conjunct2, THEN conjunct2, THEN conjunct2, THEN conjunct2])
  have "s = take 8 s @ r" by (simp add: r_def)
  also have "r = takeWhile is_space r @ r2" by (simp add: r2_def)
  also have "r2 = num @ r3" by (simp add: num r3_def)
  also have "r3 = ''/10'' @ drop 3 r3"
    using append_take_drop_id[of 3 r3] by (simp only: sl)
  finally have eq: "s = take 8 s @ takeWhile is_space r @ num @ ''/10'' @ drop 3 r3" .
  have la1: "list_all is_space (takeWhile is_space r)" by (rule list_all_takeWhile)
  have la2: "list_all is_score_char num" unfolding num by (rule list_all_takeWhile)
  show ?thesis
    apply (rule exI[of _ "take 8 s"])
    apply (rule exI[of _ "takeWhile is_space r"])
    apply (rule exI[of _ "drop 3 r3"])
    apply (intro conjI)
         apply (rule eq)
        apply (rule kw)
       apply (rule ws)
      apply (rule la1)
     apply (rule nn)
    apply (rule la2)
    done
qed

lemma rated_match_iff:
  "rated_match pre num t \<longleftrightarrow> (\<exists>post. t = pre @ post \<and> match_score_at post = Some num)"
proof
  assume "rated_match pre num t"
  then obtain kw ws post where t: "t = pre @ kw @ ws @ num @ ''/10'' @ post"
    and rest: "map ascii_lower kw = ''rated at''" "ws \<noteq> []" "list_all is_space ws"
      "num \<noteq> []" "list_all is_score_char num"
    unfolding rated_match_def by (elim exE conjE)
  have "match_score_at (kw @ ws @ num @ ''/10'' @ post) = Some num"
    by (rule match_score_at_complete[OF refl rest])
  then show "\<exists>post. t = pre @ post \<and> match_score_at post = Some num"
    using t by (intro exI[of _ "kw @ ws @ num @ ''/10'' @ post"] conjI)
next
  assume "\<exists>post. t = pre @ post \<and> match_score_at post = Some num"
  then obtain q where t: "t = pre @ q" and m: "match_score_at q = Some num" by (elim exE conjE)
  from match_score_at_sound[OF m] obtain kw ws post where
    q: "q = kw @ ws @ num @ ''/10'' @ post" and
    rest: "map ascii_lower kw = ''rated at'' \<and> ws \<noteq> [] \<and> list_all is_space ws
        \<and> num \<noteq> [] \<and> list_all is_score_char num"
    by (elim exE conjE) (rule that, assumption, intro conjI, assumption+)
  have eq: "t = pre @ kw @ ws @ num @ ''/10'' @ post" unfolding t q ..
  show "rated_match pre num t"
    unfolding rated_match_def
    apply (rule exI[of _ kw])
    apply (rule exI[of _ ws])
    apply (rule exI[of _ post])
    apply (rule conjI)
     apply (rule eq)
    apply (rule rest)
    done
qed

lemma match_score_at_Nil: "match_score_at [] = None"
  by (simp add: match_score_at_def)

lemma re_search_score_None:
  "re_search_score t = None \<longleftrightarrow> (\<forall>pre num. \<not> rated_match pre num t)"
proof (induction t)
  case Nil
  then show ?case by (simp add: rated_match_iff match_score_at_Nil)
next
  case (Cons c cs)
  show ?case
  proof (cases "match_score_at (c # cs)")
    case None
    have "(\<forall>pre num. \<not> rated_match pre num (c # cs)) \<longleftrightarrow> (\<forall>pre num. \<not> rated_match pre num cs)"
      unfolding rated_match_iff using None
      by (auto simp: Cons_eq_append_conv)
    then show ?thesis using None Cons by simp
  next
    case (Some n)
    then have "rated_match [] n (c # cs)" by (simp add: rated_match_iff)
    then show ?thesis using Some by auto
  qed
qed

lemma re_search_score_Some:
  "re_search_score t = Some num \<Longrightarrow>
     \<exists>pre. rated_match pre num t \<and> (\<forall>p n. length p < length pre \<longrightarrow> \<not> rated_match p n t)"
proof (induction t)
  case Nil
  then show ?case by simp
next
  case (Cons c cs)
  show ?case
  proof (cases "match_score_at (c # cs)")
    case None
    with Cons.prems have "re_search_score cs = Some num" by simp
    from Cons.IH[OF this] obtain pre where pre: "rated_match pre num cs"
      and least: "\<forall>p n. length p < length pre \<longrightarrow> \<not> rated_match p n cs" by blast
    have "rated_match (c # pre) num (c # cs)" using pre by (auto simp: rated_match_iff)
    moreover have "\<forall>p n. length p < length (c # pre) \<longrightarrow> \<not> rated_match p n (c # cs)"
      using least None by (auto simp: rated_match_iff Cons_eq_append_conv)
    ultimately show ?thesis by blast
  next
    case (Some n)
    with Cons.prems have "n = num" by simp
    then have "rated_match [] num (c # cs)" using Some by (simp add: rated_match_iff)
    then show ?thesis by (intro exI[of _ "[]"]) simp
  qed
qed

lemma rated_match_unique:
  "rated_match pre num t \<Longrightarrow> rated_match pre' num' t \<Longrightarrow> length pre = length pre' \<Longrightarrow> num = num'"
  by (auto simp: rated_match_iff)

lemma re_search_score_leftmost:
  assumes "rated_match pre num t" and "\<forall>p n. length p < length pre \<longrightarrow> \<not> rated_match p n t"
  shows "re_search_score t = Some num"
proof -
  from assms(1) have "re_search_score t \<noteq> None" by (auto simp: re_search_score_None)
  then obtain m where m: "re_search_score t = Some m" by auto
  from re_search_score_Some[OF m] obtain q where q: "rated_match q m t"
    and least: "\<forall>p n. length p < length q \<longrightarrow> \<not> rated_match p n t" by blast
  have "length q = length pre" using assms q least by (meson linorder_neqE_nat)
  then show ?thesis using rated_match_unique[OF q assms(1)] m by simp
qed

lemma py_float_nonneg: "py_float n = Some v \<Longrightarrow> 0 \<le> v"
  by (auto simp: py_float_def Let_def split: list.splits if_splits)

lemma py_float_750: "py_float ''7.50'' = Some 7.5"
  by (simp add: py_float_def is_digit_def dec_val_def digit_val_def)

lemmas score_eval =
  extract_score_def match_score_at_def ascii_lower_def is_space_def is_score_char_def
  is_digit_def py_float_def dec_val_def digit_val_def

text \<open>
  C6 (as stated, refuted): the value returned by score extraction is not always \<open>-1\<close> or a
  number in the interval from 0 to 10. The text \<open>Rated At 11/10\<close> yields 11.
\<close>

theorem extract_score_range_counterexample:
  "extract_score ''Rated At 11/10'' = 11
   \<and> \<not> (extract_score ''Rated At 11/10'' = - 1
         \<or> (0 \<le> extract_score ''Rated At 11/10'' \<and> extract_score ''Rated At 11/10'' \<le> 10))"
  by (simp add: score_eval)

text \<open>
  C6 (amended): for every text, score extraction takes the leftmost match of the
  case-insensitive pattern \<open>rated at <number>/10\<close> (whitespace, then a run of digits and
  dots) and returns the value of the number; it returns \<open>-1\<close> when the pattern matches
  nowhere or the number is malformed. The value returned is \<open>-1\<close> or a non-negative
  number (it may exceed 10). A text whose leftmost match carries \<open>7.50\<close> yields \<open>7.5\<close>.
\<close>

theorem extract_score_spec:
  "((\<forall>pre num. \<not> rated_match pre num t) \<longrightarrow> extract_score t = - 1)
   \<and> (\<forall>pre num. rated_match pre num t \<and> (\<forall>p n. length p < length pre \<longrightarrow> \<not> rated_match p n t)
        \<longrightarrow> extract_score t = (case py_float num of Some v \<Rightarrow> v | None \<Rightarrow> - 1))
   \<and> (\<forall>pre. rated_match pre ''7.50'' t \<and> (\<forall>p n. length p < length pre \<longrightarrow> \<not> rated_match p n t)
        \<longrightarrow> extract_score t = 7.5)
   \<and> (extract_score t = - 1 \<or> 0 \<le> extract_score t)"
proof (intro conjI allI impI)
  assume "\<forall>pre num. \<not> rated_match pre num t"
  then have "re_search_score t = None" by (simp add: re_search_score_None)
  then show "extract_score t = - 1" by (simp add: extract_score_def)
next
  fix pre num
  assume "rated_match pre num t \<and> (\<forall>p n. length p < length pre \<longrightarrow> \<not> rated_match p n t)"
  then have "re_search_score t = Some num" by (blast intro: re_search_score_leftmost)
  then show "extract_score t = (case py_float num of Some v \<Rightarrow> v | None \<Rightarrow> - 1)"
    by (simp add: extract_score_def)
next
  fix pre
  assume "rated_match pre ''7.50'' t \<and> (\<forall>p n. length p < length pre \<longrightarrow> \<not> rated_match p n t)"
  then have "re_search_score t = Some ''7.50''" by (blast intro: re_search_score_leftmost)
  then show "extract_score t = 7.5" by (simp add: extract_score_def py_float_750)
next
  show "extract_score t = - 1 \<or> 0 \<le> extract_score t"
    by (auto simp: extract_score_def dest: py_float_nonneg split: option.splits)
qed

theorem extract_score_spec_witness:
  "rated_match [] ''7.50'' ''rated at 7.50/10''
   \<and> extract_score ''rated at 7.50/10'' = 7.5
   \<and> (\<forall>pre num. \<not> rated_match pre num ''no score here'') = True
   \<and> extract_score ''no score here'' = - 1"
proof -
  have m: "rated_match [] ''7.50'' ''rated at 7.50/10''"
    by (simp add: rated_match_iff match_score_at_def ascii_lower_def is_space_def
        is_score_char_def is_digit_def)
  have r: "re_search_score ''no score here'' = None"
    by (simp add: match_score_at_def ascii_lower_def)
  have n: "\<forall>pre num. \<not> rated_match pre num ''no score here''"
    by (rule re_search_score_None[THEN iffD1, OF r])
  have a: "extract_score ''rated at 7.50/10'' = 7.5"
    by (rule extract_score_spec[of "''rated at 7.50/10''", THEN conjunct2, THEN conjunct2,
          THEN conjunct1, rule_format, of "[]"]) (simp add: m)
  have b: "extract_score ''no score here'' = - 1"
    by (rule extract_score_spec[of "''no score here''", THEN conjunct1, rule_format]) (simp add: n)
  show ?thesis by (intro conjI m a b) (simp add: n)
qed

section \<open>What each node does to the state and to the history\<close>

lemma read_file_hist: "read_file e p h = Inr (c, h1) \<Longrightarrow> h1 = ReadFile p # h \<and> is_safe_path e p"
  by (auto simp: read_file_def split: if_splits sum.splits)

lemma run_pylint_hist: "run_pylint e p h = (r, h1) \<Longrightarrow> h1 = h \<or> h1 = RunPylint p # h"
  by (auto simp: run_pylint_def split: if_splits sum.splits)

lemma py_sleep_hist: "py_sleep n h = Inr h1 \<Longrightarrow> h1 = Sleep n # h \<and> 0 \<le> n"
  by (auto simp: py_sleep_def split: if_splits)

lemma safe_llm_invoke_hist:
  "safe_llm_invoke e p a act h = (r, h1) \<Longrightarrow>
     \<exists>l. h1 = l # LlmInvoke p r # h \<and> \<not> is_llm l \<and> \<not> is_write l \<and> \<not> is_llm_failure l"
  by (auto simp: safe_llm_invoke_def log_experiment_def split: sum.splits)

lemma safe_llm_invoke_failed:
  "safe_llm_invoke e p a act h = (Inl ex, h1) \<Longrightarrow> llm_invoke e h p = Inl ex"
  by (auto simp: safe_llm_invoke_def split: sum.splits)

lemma write_file_hist:
  "write_file e p c h = Inr (m, h1) \<Longrightarrow> h1 = WriteFile p c # h \<and> is_safe_path e p"
  by (auto simp: write_file_def split: if_splits option.splits)

lemmas hist_defs = llm_requests_def llm_failed_def writes_def

lemma auditor_node_effect:
  assumes "auditor_node e s h = Inr (s', h')"
  shows "same_control s s' \<and> current_file_index s' = current_file_index s
    \<and> current_file_path s' = current_file_path s \<and> iteration_count s' = iteration_count s
    \<and> test_results s' = test_results s \<and> results s' = results s
    \<and> writes h' = writes h
    \<and> llm_requests h' = llm_requests h + (if disable_llm s then 0 else 1)
    \<and> (if disable_llm s then status s' = ''LLM_DISABLED''
        else status s' = status s \<or> status s' = ''LLM_FAILURE'')
    \<and> (llm_failed h' \<longrightarrow> llm_failed h \<or> (\<not> disable_llm s \<and> status s' = ''LLM_FAILURE''))"
  using assms
  unfolding auditor_node_def Let_def same_control_def
  by (auto simp: hist_defs log_experiment_def
      split: option.splits sum.splits prod.splits if_splits
      dest!: read_file_hist run_pylint_hist py_sleep_hist safe_llm_invoke_hist)


lemma apply_output_effect:
  assumes "apply_output e s code h = Inr (s', h')"
  shows "same_control s s' \<and> current_file_index s' = current_file_index s
    \<and> current_file_path s' = current_file_path s \<and> iteration_count s' = iteration_count s
    \<and> test_results s' = test_results s \<and> status s' = status s
    \<and> writes h' = Suc (writes h) \<and> llm_requests h' = llm_requests h
    \<and> llm_failed h' = llm_failed h
    \<and> (\<exists>ent. results s' = results s @ [ent] \<and> Some (original_path ent) = current_file_path s
          \<and> entry_status ent = ''UPDATED'' \<and> mode ent = (if output_mode s = ''copy'' then ''copy'' else ''overwrite''))"
  using assms
  unfolding apply_output_def Let_def same_control_def
  by (auto simp: hist_defs
      split: option.splits sum.splits prod.splits if_splits
      dest!: run_pylint_hist write_file_hist)

lemma fixer_node_effect:
  assumes "fixer_node e s h = Inr (s', h')"
  shows "same_control s s' \<and> current_file_index s' = current_file_index s
    \<and> current_file_path s' = current_file_path s \<and> iteration_count s' = iteration_count s
    \<and> test_results s' = test_results s
    \<and> (if disable_llm s then status s' = ''LLM_DISABLED''
        else status s' = status s \<or> status s' = ''LLM_FAILURE'')
    \<and> (llm_failed h' \<longrightarrow> llm_failed h \<or> (\<not> disable_llm s \<and> status s' = ''LLM_FAILURE''))
    \<and> llm_requests h' = llm_requests h + (if disable_llm s \<or> status s = ''LLM_FAILURE'' then 0 else 1)
    \<and> (status s' \<noteq> status s \<and> \<not> disable_llm s \<longrightarrow> (\<exists>hx p ex. llm_invoke e hx p = Inl ex))
    \<and> ((results s' = results s \<and> writes h' = writes h)
        \<or> (\<not> disable_llm s \<and> status s \<noteq> ''LLM_FAILURE'' \<and> writes h' = Suc (writes h)
            \<and> (\<exists>ent. results s' = results s @ [ent]
                  \<and> Some (original_path ent) = current_file_path s
                  \<and> entry_status ent = ''UPDATED'')))"
proof -
  consider (dis) "disable_llm s" | (fail) "\<not> disable_llm s" "status s = ''LLM_FAILURE''"
    | (call) "\<not> disable_llm s" "status s \<noteq> ''LLM_FAILURE''" by blast
  then show ?thesis
  proof cases
    case dis
    with assms show ?thesis
      by (auto simp: fixer_node_def Let_def same_control_def hist_defs log_experiment_def)
  next
    case fail
    with assms show ?thesis
      by (auto simp: fixer_node_def Let_def same_control_def hist_defs)
  next
    case call
    with assms obtain h1 r h2 where sl: "py_sleep (cooldown_seconds s) h = Inr h1"
      and inv: "safe_llm_invoke e (fixer_request s) ''Fixer'' FIX h1 = (r, h2)"
      by (auto simp: fixer_node_def Let_def split: sum.splits prod.splits)
    from py_sleep_hist[OF sl] have h1: "h1 = Sleep (cooldown_seconds s) # h" by simp
    from safe_llm_invoke_hist[OF inv] obtain l where
      h2: "h2 = l # LlmInvoke (fixer_request s) r # h1" and l: "\<not> is_llm l" "\<not> is_write l" "\<not> is_llm_failure l"
      by blast
    show ?thesis
    proof (cases r)
      case (Inl ex)
      with assms call sl inv have "s' = s\<lparr>current_file_content := current_file_content s,
          pylint_report := pylint_report s, status := ''LLM_FAILURE''\<rparr>" "h' = h2"
        by (auto simp: fixer_node_def Let_def)
      moreover have "llm_invoke e h1 (fixer_request s) = Inl ex"
        using inv Inl by (auto dest: safe_llm_invoke_failed)
      ultimately show ?thesis using call h1 h2 l Inl
        by (auto simp: same_control_def hist_defs)
    next
      case (Inr resp)
      with assms call sl inv have "apply_output e s (extract_code resp) h2 = Inr (s', h')"
        by (auto simp: fixer_node_def Let_def)
      from apply_output_effect[OF this] show ?thesis using call h1 h2 l Inr
        by (auto simp: hist_defs)
    qed
  qed
qed

lemma judge_node_effect:
  assumes "judge_node e s h = Inr (s', h')"
  shows "same_control s s' \<and> current_file_index s' = current_file_index s
    \<and> current_file_path s' = current_file_path s \<and> iteration_count s' = iteration_count s + 1
    \<and> status s' = status s \<and> results s' = results s
    \<and> writes h' = writes h \<and> llm_requests h' = llm_requests h \<and> llm_failed h' = llm_failed h"
  using assms
  unfolding judge_node_def Let_def same_control_def run_pytest_def
  by (auto simp: hist_defs log_experiment_def split: sum.splits prod.splits)

lemma judge_node_total: "\<exists>s' h'. judge_node e s h = Inr (s', h')"
  unfolding judge_node_def Let_def by (simp split: prod.splits)

lemma next_file_node_effect:
  assumes "next_file_node s = Inr s'"
  shows "same_control s s' \<and> current_file_index s' = current_file_index s + 1
    \<and> iteration_count s' = 0 \<and> status s' = status s \<and> results s' = results s
    \<and> test_results s' = test_results s"
  using assms
  unfolding next_file_node_def same_control_def
  by (auto split: sum.splits if_splits)

section \<open>The file transition (\<open>next_file_node\<close>)\<close>

text \<open>
  C3 (as stated, refuted): the file transition does not reset \<open>test_results\<close>. After a
  file whose last Judge run failed, the state of the next file still holds that failed
  outcome, and the first Fix request for the next file quotes it.
\<close>

theorem next_file_keeps_test_results_counterexample:
  "(case next_file_node
           ((init_state [''/sandbox/a.py'', ''/sandbox/b.py''] False ''overwrite'')
              \<lparr>test_results := Some failed_result, iteration_count := 10\<rparr>) of
      Inl err \<Rightarrow> False
    | Inr s' \<Rightarrow>
        current_file_path s' = Some ''/sandbox/b.py'' \<and> iteration_count s' = 0
        \<and> test_results s' = Some failed_result \<and> test_results s' \<noteq> None
        \<and> test_feedback (test_results s')
            = ''\<newline>Previous Test Failures:\<newline>1 failed\<newline>Fix these errors.'')"
  by (simp add: next_file_node_def init_state_def py_index_def failed_result_def test_feedback_def)

text \<open>
  C3 (amended): every file transition increments \<open>current_file_index\<close> by exactly one and
  resets \<open>iteration_count\<close> to 0; it sets \<open>current_file_path\<close> to the path at the new
  index, or to \<open>None\<close> when the new index is not below the number of files; every other
  field, \<open>test_results\<close> among them, is left as it was.
\<close>

theorem next_file_node_spec:
  assumes "0 \<le> current_file_index s"
  shows "next_file_node s =
           Inr (s\<lparr>current_file_index := current_file_index s + 1,
                   iteration_count := 0,
                   current_file_path :=
                     (if current_file_index s + 1 < int (length (files s))
                      then Some (files s ! nat (current_file_index s + 1)) else None)\<rparr>)
         \<and> (\<forall>s'. next_file_node s = Inr s' \<longrightarrow> test_results s' = test_results s)"
  using assms by (auto simp: next_file_node_def py_index_def)

theorem next_file_node_spec_witness:
  "0 \<le> current_file_index (init_state [''/sandbox/a.py'', ''/sandbox/b.py''] False ''overwrite'')
   \<and> next_file_node (init_state [''/sandbox/a.py'', ''/sandbox/b.py''] False ''overwrite'')
       = Inr ((init_state [''/sandbox/a.py'', ''/sandbox/b.py''] False ''overwrite'')
               \<lparr>current_file_index := 1, iteration_count := 0,
                current_file_path := Some ''/sandbox/b.py''\<rparr>)"
proof -
  have h: "0 \<le> current_file_index (init_state [''/sandbox/a.py'', ''/sandbox/b.py''] False ''overwrite'')"
    by (simp add: init_state_def)
  show ?thesis
    using next_file_node_spec[OF h, THEN conjunct1] by (simp add: init_state_def)
qed

section \<open>The Judge stage and its router\<close>

lemma run_pytest_outcome:
  "success (fst (run_pytest e h)) \<longleftrightarrow> return_code (fst (run_pytest e h)) = 0"
  by (simp add: run_pytest_def split: sum.splits)

text \<open>
  C4: in copy mode (\<open>ISOLATED_FRAGMENT\<close>) every Judge run records \<open>success = True\<close>, the
  value the router reads, so the router advances; the output text and the exit code of
  the test probe are recorded unchanged, and the probe's real outcome is its recorded
  exit code being 0.
\<close>

theorem judge_copy_mode:
  assumes "output_mode s = ''copy''"
  shows "\<exists>s' h' r. judge_node e s h = Inr (s', h') \<and> test_results s' = Some r
           \<and> success r
           \<and> output_text r = output_text (fst (run_pytest e h))
           \<and> return_code r = return_code (fst (run_pytest e h))
           \<and> (success (fst (run_pytest e h)) \<longleftrightarrow> return_code r = 0)
           \<and> (\<forall>rc out err. pytest_proc e h (tools_target_dir e) = Inr (rc, out, err) \<longrightarrow>
                 return_code r = rc
                 \<and> output_text r = ''STDOUT:\<newline>'' @ out @ ''\<newline>STDERR:\<newline>'' @ err)
           \<and> judge_router s' = Next_file
           \<and> next_node Judge s' = Some Next_file_processor"
proof -
  obtain res h1 where rp: "run_pytest e h = (res, h1)" by (cases "run_pytest e h")
  have oc: "success res \<longleftrightarrow> return_code res = 0"
    using run_pytest_outcome[of e h] by (simp add: rp)
  have raw: "\<forall>rc out err. pytest_proc e h (tools_target_dir e) = Inr (rc, out, err) \<longrightarrow>
      return_code res = rc \<and> output_text res = ''STDOUT:\<newline>'' @ out @ ''\<newline>STDERR:\<newline>'' @ err"
    using rp by (auto simp: run_pytest_def)
  show ?thesis
    using assms oc raw
    by (simp add: judge_node_def Let_def rp judge_router_def)
qed

theorem judge_copy_mode_witness:
  "output_mode (init_state [''/sandbox/a.py''] False ''copy'') = ''copy''
   \<and> (\<exists>s' h'. judge_node example_env (init_state [''/sandbox/a.py''] False ''copy'') [] = Inr (s', h')
         \<and> test_results s'
            = Some \<lparr>success = True, output_text = ''STDOUT:\<newline>1 failed\<newline>STDERR:\<newline>'',
                     return_code = 1\<rparr>
         \<and> judge_router s' = Next_file)"
proof -
  have h: "output_mode (init_state [''/sandbox/a.py''] False ''copy'') = ''copy''"
    by (simp add: init_state_def)
  have p: "pytest_proc example_env [] (tools_target_dir example_env) = Inr (1, ''1 failed'', [])"
    by (simp add: example_env_def)
  from judge_copy_mode[OF h, of example_env "[]"] obtain s' h' r where
    j: "judge_node example_env (init_state [''/sandbox/a.py''] False ''copy'') [] = Inr (s', h')"
    and r: "test_results s' = Some r" "success r"
    and raw: "\<forall>rc out err. pytest_proc example_env [] (tools_target_dir example_env) = Inr (rc, out, err) \<longrightarrow>
                 return_code r = rc
                 \<and> output_text r = ''STDOUT:\<newline>'' @ out @ ''\<newline>STDERR:\<newline>'' @ err"
    and jr: "judge_router s' = Next_file"
    by blast
  from raw p have "return_code r = 1" "output_text r = ''STDOUT:\<newline>1 failed\<newline>STDERR:\<newline>''"
    by simp_all
  with r have "test_results s'
            = Some \<lparr>success = True, output_text = ''STDOUT:\<newline>1 failed\<newline>STDERR:\<newline>'',
                     return_code = 1\<rparr>"
    by simp
  with j jr h show ?thesis by blast
qed

section \<open>Runs: steps and invariants\<close>

lemma exec_node_effect:
  assumes "exec_node e n s h = Inr (s', h')"
  shows "same_control s s'"
    and "n \<noteq> Next_file_processor \<Longrightarrow>
           current_file_index s' = current_file_index s \<and> current_file_path s' = current_file_path s"
    and "n = Next_file_processor \<Longrightarrow>
           current_file_index s' = current_file_index s + 1 \<and> iteration_count s' = 0 \<and> h' = h"
    and "n = Judge \<Longrightarrow> iteration_count s' = iteration_count s + 1"
    and "n \<noteq> Judge \<Longrightarrow> n \<noteq> Next_file_processor \<Longrightarrow> iteration_count s' = iteration_count s"
    and "n \<noteq> Auditor \<Longrightarrow> n \<noteq> Fixer \<Longrightarrow>
           status s' = status s \<and> llm_failed h' = llm_failed h \<and> llm_requests h' = llm_requests h
           \<and> results s' = results s \<and> writes h' = writes h"
    and "n = Manager \<Longrightarrow> s' = s \<and> h' = h"
proof -
  show "same_control s s'"
    using assms auditor_node_effect[of e s h s' h'] fixer_node_effect[of e s h s' h']
      judge_node_effect[of e s h s' h'] next_file_node_effect[of s s']
    by (cases n) (auto simp: same_control_def split: sum.splits)
  show "n \<noteq> Next_file_processor \<Longrightarrow>
           current_file_index s' = current_file_index s \<and> current_file_path s' = current_file_path s"
    using assms auditor_node_effect[of e s h s' h'] fixer_node_effect[of e s h s' h']
      judge_node_effect[of e s h s' h']
    by (cases n) auto
  show "n = Next_file_processor \<Longrightarrow>
           current_file_index s' = current_file_index s + 1 \<and> iteration_count s' = 0 \<and> h' = h"
    using assms next_file_node_effect[of s s'] by (auto split: sum.splits)
  show "n = Judge \<Longrightarrow> iteration_count s' = iteration_count s + 1"
    using assms judge_node_effect[of e s h s' h'] by auto
  show "n \<noteq> Judge \<Longrightarrow> n \<noteq> Next_file_processor \<Longrightarrow> iteration_count s' = iteration_count s"
    using assms auditor_node_effect[of e s h s' h'] fixer_node_effect[of e s h s' h']
    by (cases n) auto
  show "n \<noteq> Auditor \<Longrightarrow> n \<noteq> Fixer \<Longrightarrow>
           status s' = status s \<and> llm_failed h' = llm_failed h \<and> llm_requests h' = llm_requests h
           \<and> results s' = results s \<and> writes h' = writes h"
    using assms judge_node_effect[of e s h s' h'] next_file_node_effect[of s s']
    by (cases n) (auto split: sum.splits)
  show "n = Manager \<Longrightarrow> s' = s \<and> h' = h"
    using assms by auto
qed


lemma step_END: "pos c = None \<Longrightarrow> step e c = Inr c"
  by (simp add: step_def)

lemma step_SomeE:
  assumes "step e c = Inr c'" and "pos c = Some n"
  obtains s' h' where "exec_node e n (st c) (hist c) = Inr (s', h')"
    and "c' = \<lparr>pos = next_node n s', st = s', hist = h', visited = visited c @ [n]\<rparr>"
  using assms by (auto simp: step_def split: sum.splits)

lemma step_SomeI:
  assumes "exec_node e n (st c) (hist c) = Inr (s', h')" and "pos c = Some n"
  shows "step e c = Inr \<lparr>pos = next_node n s', st = s', hist = h', visited = visited c @ [n]\<rparr>"
  using assms by (simp add: step_def)

lemma steps_invariant:
  assumes "\<And>c c'. I c \<Longrightarrow> step e c = Inr c' \<Longrightarrow> I c'" and "I c" and "steps e k c = Inr c'"
  shows "I c'"
  using assms(2,3)
proof (induction k arbitrary: c)
  case 0
  then show ?case by simp
next
  case (Suc k)
  from Suc.prems(2) obtain c1 where s1: "step e c = Inr c1" and r: "steps e k c1 = Inr c'"
    by (auto split: sum.splits)
  from assms(1)[OF Suc.prems(1) s1] have "I c1" .
  from Suc.IH[OF this r] show ?case .
qed

lemma steps_add:
  "steps e (j + k) c = (case steps e j c of Inl err \<Rightarrow> Inl err | Inr c1 \<Rightarrow> steps e k c1)"
  by (induction j arbitrary: c) (auto split: sum.splits)

lemma steps_END: "pos c = None \<Longrightarrow> steps e k c = Inr c"
  by (induction k) (auto simp: step_END)




lemma invoke_of_steps:
  assumes "steps e k (initial s) = Inr c" and "pos c = None" and "k \<le> limit"
  shows "invoke e limit s = Inr c"
proof -
  obtain d where d: "limit = k + d" using assms(3) by (metis le_Suc_ex)
  have "steps e limit (initial s) = steps e d c"
    unfolding d using steps_add[of e k d "initial s"] assms(1) by simp
  also have "\<dots> = Inr c" by (rule steps_END[OF assms(2)])
  finally show ?thesis using assms(2) by (simp add: invoke_def)
qed


lemmas run_eval =
  step_def initial_def init_state_def example_env_def auditor_node_def fixer_node_def
  judge_node_def apply_output_def read_file_def write_file_def run_pylint_def run_pytest_def
  is_safe_path_def tools_target_dir_def log_experiment_def manager_router_def judge_router_def
  next_file_node_def py_index_def py_sleep_def safe_llm_invoke_def Let_def

section \<open>A model failure is never cleared\<close>

lemma fixer_skips_after_failure:
  "status s = ''LLM_FAILURE'' \<Longrightarrow> \<not> disable_llm s \<Longrightarrow> fixer_node e s h = Inr (s, h)"
  by (simp add: fixer_node_def Let_def)

lemma step_failed_status:
  assumes "status (st c) = ''LLM_FAILURE'' \<and> \<not> disable_llm (st c)" and "step e c = Inr c'"
  shows "status (st c') = ''LLM_FAILURE'' \<and> \<not> disable_llm (st c')"
proof (cases "pos c")
  case None
  with assms show ?thesis by (simp add: step_def)
next
  case (Some n)
  from step_SomeE[OF assms(2) Some] obtain s' h' where
    ex: "exec_node e n (st c) (hist c) = Inr (s', h')" and c': "st c' = s'"
    by (metis config.select_convs(2))
  have d: "disable_llm s' = disable_llm (st c)"
    using exec_node_effect(1)[OF ex] by (simp add: same_control_def)
  have "status s' = ''LLM_FAILURE''"
  proof (cases "n = Auditor \<or> n = Fixer")
    case True
    then show ?thesis
      using ex assms(1) auditor_node_effect[of e "st c" "hist c" s' h']
        fixer_node_effect[of e "st c" "hist c" s' h']
      by auto
  next
    case False
    then show ?thesis using exec_node_effect(6)[OF ex] assms(1) by simp
  qed
  with d assms(1) c' show ?thesis by simp
qed

lemma step_failure_latched:
  assumes "failure_latched c" and "step e c = Inr c'"
  shows "failure_latched c'"
proof (cases "pos c")
  case None
  with assms show ?thesis by (simp add: step_def)
next
  case (Some n)
  from step_SomeE[OF assms(2) Some] obtain s' h' where
    ex: "exec_node e n (st c) (hist c) = Inr (s', h')" and c': "st c' = s'" "hist c' = h'"
    by (metis config.select_convs(2,3))
  show ?thesis
  proof (cases "llm_failed (hist c)")
    case True
    with assms(1) have "status (st c) = ''LLM_FAILURE'' \<and> \<not> disable_llm (st c)"
      by (simp add: failure_latched_def)
    from step_failed_status[OF this assms(2)] show ?thesis by (simp add: failure_latched_def)
  next
    case False
    have d: "disable_llm s' = disable_llm (st c)"
      using exec_node_effect(1)[OF ex] by (simp add: same_control_def)
    have "llm_failed h' \<longrightarrow> status s' = ''LLM_FAILURE'' \<and> \<not> disable_llm (st c)"
    proof (cases "n = Auditor \<or> n = Fixer")
      case True
      then show ?thesis
        using ex False auditor_node_effect[of e "st c" "hist c" s' h']
          fixer_node_effect[of e "st c" "hist c" s' h']
        by auto
    next
      case False
      then show ?thesis using exec_node_effect(6)[OF ex] \<open>\<not> llm_failed (hist c)\<close> by simp
    qed
    with d c' show ?thesis by (simp add: failure_latched_def)
  qed
qed

lemma initial_latched: "failure_latched (initial s0)"
  by (simp add: failure_latched_def initial_def llm_failed_def)

definition failing_llm_env :: env where
  "failing_llm_env = example_env\<lparr>llm_invoke := (\<lambda>h prompt. Inl ''rate limit exceeded'')\<rparr>"

text \<open>
  C10: once a request to the language model has failed in a run, \<open>status\<close> is
  \<open>LLM_FAILURE\<close> in every later configuration of the run; a later Audit stage, also one
  whose request succeeds, leaves it so; and every later Fix stage returns the state and
  the history as they are: no request is sent and the file content is not modified.
\<close>

theorem model_failure_latched:
  assumes "steps e k (initial s0) = Inr c" and "llm_failed (hist c)"
  shows "status (st c) = ''LLM_FAILURE''
    \<and> (\<forall>j c'. steps e j c = Inr c' \<longrightarrow>
          status (st c') = ''LLM_FAILURE''
          \<and> fixer_node e (st c') (hist c') = Inr (st c', hist c')
          \<and> (\<forall>s' h'. auditor_node e (st c') (hist c') = Inr (s', h') \<longrightarrow> status s' = ''LLM_FAILURE''))"
proof -
  have "failure_latched c"
    by (rule steps_invariant[where I = failure_latched, OF step_failure_latched initial_latched assms(1)])
  with assms(2) have f: "status (st c) = ''LLM_FAILURE'' \<and> \<not> disable_llm (st c)"
    by (simp add: failure_latched_def)
  have later: "status (st c') = ''LLM_FAILURE'' \<and> \<not> disable_llm (st c')"
    if "steps e j c = Inr c'" for j c'
    by (rule steps_invariant[where I = "\<lambda>c. status (st c) = ''LLM_FAILURE'' \<and> \<not> disable_llm (st c)",
          OF step_failed_status f that])
  show ?thesis
  proof (intro conjI allI impI)
    show "status (st c) = ''LLM_FAILURE''" using f by simp
  next
    fix j c' assume "steps e j c = Inr c'"
    from later[OF this] show "status (st c') = ''LLM_FAILURE''" by simp
  next
    fix j c' assume "steps e j c = Inr c'"
    from later[OF this] show "fixer_node e (st c') (hist c') = Inr (st c', hist c')"
      by (simp add: fixer_skips_after_failure)
  next
    fix j c' s' h'
    assume "steps e j c = Inr c'" and a: "auditor_node e (st c') (hist c') = Inr (s', h')"
    from later[OF this(1)] auditor_node_effect[OF a] show "status s' = ''LLM_FAILURE''" by auto
  qed
qed

theorem model_failure_latched_witness:
  "\<exists>c. steps failing_llm_env 2 (initial (init_state [''/sandbox/a.py'', ''/sandbox/b.py''] False ''overwrite'')) = Inr c
       \<and> llm_failed (hist c) \<and> status (st c) = ''LLM_FAILURE''
       \<and> fixer_node failing_llm_env (st c) (hist c) = Inr (st c, hist c)"
proof -
  let ?r = "steps failing_llm_env 2 (initial (init_state [''/sandbox/a.py'', ''/sandbox/b.py''] False ''overwrite''))"
  have "(case ?r of Inl err \<Rightarrow> False | Inr c \<Rightarrow> llm_failed (hist c))"
    by code_simp
  then obtain c where s: "?r = Inr c" and f: "llm_failed (hist c)"
    by (cases ?r) simp_all
  have z: "steps failing_llm_env 0 c = Inr c" by simp
  from model_failure_latched[OF s f] z
  have "status (st c) = ''LLM_FAILURE''"
    and "fixer_node failing_llm_env (st c) (hist c) = Inr (st c, hist c)"
    by blast+
  with s f show ?thesis by blast
qed

section \<open>Routing after the Judge and the bound on retries\<close>

lemma retry_transitions_snoc:
  "retry_transitions (v @ [Manager]) = retry_transitions v"
  "retry_transitions (v @ [Judge]) = retry_transitions v"
  "retry_transitions (v @ [Next_file_processor]) = retry_transitions v"
  "retry_transitions (v @ [Auditor]) = 0"
  by (simp_all add: retry_transitions_def)

lemma retry_transitions_fixer:
  assumes "v \<noteq> []"
  shows "last v = Auditor \<Longrightarrow> retry_transitions (v @ [Fixer]) = 0"
    and "last v = Judge \<Longrightarrow> retry_transitions (v @ [Fixer]) = Suc (retry_transitions v)"
  using assms by (cases v rule: rev_cases; simp add: retry_transitions_def)+

lemma judge_router_cases:
  "judge_router s = Next_file \<longleftrightarrow>
     disable_llm s \<or> status s = ''LLM_FAILURE'' \<or> (\<exists>r. test_results s = Some r \<and> success r)
     \<or> max_iterations s \<le> iteration_count s"
  "judge_router s \<noteq> Next_file \<Longrightarrow> judge_router s = Retry"
  by (auto simp: judge_router_def Let_def split: option.splits if_splits)

lemma initial_retry_inv: "iteration_count s0 = 0 \<Longrightarrow> retry_inv s0 (initial s0)"
  by (simp add: retry_inv_def initial_def retry_transitions_def)

lemma step_retry_inv:
  assumes inv: "retry_inv s0 c" and stp: "step e c = Inr c'"
  shows "retry_inv s0 c'"
proof (cases "pos c")
  case None
  with assms show ?thesis by (simp add: step_def)
next
  case (Some n)
  from step_SomeE[OF stp Some] obtain s' h' where
    ex: "exec_node e n (st c) (hist c) = Inr (s', h')"
    and c': "c' = \<lparr>pos = next_node n s', st = s', hist = h', visited = visited c @ [n]\<rparr>"
    by blast
  have mx: "max_iterations s' = max_iterations s0"
    using exec_node_effect(1)[OF ex] inv by (simp add: same_control_def retry_inv_def Let_def)
  have r: "int (retry_transitions (visited c)) = 0
      \<or> int (retry_transitions (visited c)) < max_iterations s0"
    using inv by (simp add: retry_inv_def Let_def)
  show ?thesis
  proof (cases n)
    case Manager
    then have "s' = st c" using exec_node_effect(7)[OF ex] by simp
    then show ?thesis
      using inv Some Manager c' r
      by (auto simp: retry_inv_def Let_def retry_transitions_snoc split: route.splits)
  next
    case Auditor
    then have "iteration_count s' = iteration_count (st c)"
      using exec_node_effect(5)[OF ex] by simp
    then show ?thesis
      using inv Some Auditor c' mx
      by (simp add: retry_inv_def Let_def retry_transitions_snoc)
  next
    case Fixer
    then have ic: "iteration_count s' = iteration_count (st c)"
      using exec_node_effect(5)[OF ex] by simp
    from inv Some Fixer have v: "visited c \<noteq> []"
      and alt: "(last (visited c) = Auditor \<and> iteration_count (st c) = 0)
        \<or> (last (visited c) = Judge
            \<and> iteration_count (st c) = int (retry_transitions (visited c)) + 1
            \<and> iteration_count (st c) < max_iterations s0)"
      by (simp_all add: retry_inv_def Let_def)
    from alt show ?thesis
    proof
      assume a: "last (visited c) = Auditor \<and> iteration_count (st c) = 0"
      then have "retry_transitions (visited c @ [Fixer]) = 0"
        using retry_transitions_fixer(1)[OF v] by simp
      then show ?thesis using a ic Fixer c' mx by (simp add: retry_inv_def Let_def)
    next
      assume a: "last (visited c) = Judge
            \<and> iteration_count (st c) = int (retry_transitions (visited c)) + 1
            \<and> iteration_count (st c) < max_iterations s0"
      then have "retry_transitions (visited c @ [Fixer]) = Suc (retry_transitions (visited c))"
        using retry_transitions_fixer(2)[OF v] by simp
      then show ?thesis using a ic Fixer c' mx by (simp add: retry_inv_def Let_def)
    qed
  next
    case Judge
    then have ic: "iteration_count s' = iteration_count (st c) + 1"
      using exec_node_effect(4)[OF ex] by simp
    from inv Some Judge have eq: "int (retry_transitions (visited c)) = iteration_count (st c)"
      by (simp add: retry_inv_def Let_def)
    have "judge_router s' = Retry \<Longrightarrow> iteration_count s' < max_iterations s0"
      using mx by (auto simp: judge_router_def Let_def split: if_splits)
    then show ?thesis
      using ic eq Judge c' mx r
      by (auto simp: retry_inv_def Let_def retry_transitions_snoc split: route.splits)
  next
    case Next_file_processor
    then have "iteration_count s' = 0" using exec_node_effect(3)[OF ex] by simp
    then show ?thesis
      using Next_file_processor c' mx r
      by (simp add: retry_inv_def Let_def retry_transitions_snoc)
  qed
qed

lemma retries_bounded:
  assumes "iteration_count s0 = 0" and "0 \<le> max_iterations s0"
    and "steps e k (initial s0) = Inr c"
  shows "int (retry_transitions (visited c)) \<le> max_iterations s0"
proof -
  have "retry_inv s0 c"
    by (rule steps_invariant[where I = "retry_inv s0", OF step_retry_inv
          initial_retry_inv[OF assms(1)] assms(3)])
  then show ?thesis using assms(2) by (auto simp: retry_inv_def Let_def)
qed

lemma judge_step:
  assumes "pos c = Some Judge"
  shows "\<exists>c'. step e c = Inr c'
      \<and> iteration_count (st c') = iteration_count (st c) + 1
      \<and> pos c' = (if judge_router (st c') = Next_file then Some Next_file_processor else Some Fixer)"
proof -
  from judge_node_total[of e "st c" "hist c"] obtain s' h' where
    j: "judge_node e (st c) (hist c) = Inr (s', h')" by blast
  have ic: "iteration_count s' = iteration_count (st c) + 1"
    using judge_node_effect[OF j] by simp
  have "step e c = Inr \<lparr>pos = next_node Judge s', st = s', hist = h', visited = visited c @ [Judge]\<rparr>"
    using assms j by (simp add: step_def)
  moreover have "next_node Judge s'
      = (if judge_router s' = Next_file then Some Next_file_processor else Some Fixer)"
    using judge_router_cases(2)[of s'] by (auto split: route.splits)
  ultimately show ?thesis using ic by simp
qed

definition max2_state :: swarm_state where
  "max2_state = (init_state [''/sandbox/a.py''] False ''overwrite'')\<lparr>max_iterations := 2\<rparr>"

text \<open>
  C1: the router after the Judge advances exactly when the language model is disabled,
  or \<open>status\<close> is \<open>LLM_FAILURE\<close>, or the recorded test result has \<open>success\<close>, or
  \<open>iteration_count\<close> has reached \<open>max_iterations\<close>; in every other case it retries the Fix
  stage. The Judge's run itself adds one to \<open>iteration_count\<close> before the router reads
  it, and the run never fails. In a run that starts with \<open>iteration_count = 0\<close> and a
  non-negative \<open>max_iterations\<close>, the file in processing has had at most \<open>max_iterations\<close>
  retry transitions.
\<close>

theorem judge_routing:
  "(judge_router s = Next_file \<longleftrightarrow>
      disable_llm s \<or> status s = ''LLM_FAILURE'' \<or> (\<exists>r. test_results s = Some r \<and> success r)
      \<or> max_iterations s \<le> iteration_count s)
   \<and> (judge_router s \<noteq> Next_file \<longrightarrow> judge_router s = Retry)
   \<and> (pos c = Some Judge \<longrightarrow>
        (\<exists>c'. step e c = Inr c'
           \<and> iteration_count (st c') = iteration_count (st c) + 1
           \<and> pos c' = (if judge_router (st c') = Next_file then Some Next_file_processor
                       else Some Fixer)))
   \<and> (iteration_count s0 = 0 \<and> 0 \<le> max_iterations s0 \<and> steps e k (initial s0) = Inr c1
        \<longrightarrow> int (retry_transitions (visited c1)) \<le> max_iterations s0)"
  using judge_router_cases[of s] judge_step[of c e] retries_bounded[of s0 e k c1]
  by blast

theorem judge_routing_witness:
  "iteration_count max2_state = 0 \<and> 0 \<le> max_iterations max2_state
   \<and> (\<exists>c. steps example_env 7 (initial max2_state) = Inr c
         \<and> retry_transitions (visited c) = 1
         \<and> int (retry_transitions (visited c)) \<le> max_iterations max2_state)
   \<and> (\<exists>c'. step example_env
               \<lparr>pos = Some Judge, st = max2_state, hist = [], visited = [Manager, Auditor, Fixer]\<rparr>
             = Inr c'
          \<and> iteration_count (st c') = 1 \<and> pos c' = Some Fixer)"
proof -
  let ?cj = "\<lparr>pos = Some Judge, st = max2_state, hist = [], visited = [Manager, Auditor, Fixer]\<rparr>"
  have i: "iteration_count max2_state = 0" "0 \<le> max_iterations max2_state"
    by (simp_all add: max2_state_def init_state_def)
  have ev: "(case steps example_env 7 (initial max2_state) of
       Inl err \<Rightarrow> False
     | Inr c \<Rightarrow> visited c = [Manager, Auditor, Fixer, Judge, Fixer, Judge, Next_file_processor])"
    by (simp add: eval_nat_numeral run_eval max2_state_def)
  then obtain c where c: "steps example_env 7 (initial max2_state) = Inr c"
    and v: "visited c = [Manager, Auditor, Fixer, Judge, Fixer, Judge, Next_file_processor]"
    by (cases "steps example_env 7 (initial max2_state)") simp_all
  have r1: "retry_transitions (visited c) = 1" by (simp add: v retry_transitions_def)
  have r2: "int (retry_transitions (visited c)) \<le> max_iterations max2_state"
    by (rule judge_routing[of max2_state ?cj example_env max2_state 7 c,
          THEN conjunct2, THEN conjunct2, THEN conjunct2, rule_format])
      (simp add: i c)
  have pj: "pos ?cj = Some Judge" by simp
  from judge_routing[of max2_state ?cj example_env max2_state 7 c,
      THEN conjunct2, THEN conjunct2, THEN conjunct1, rule_format, OF pj]
  obtain c' where c': "step example_env ?cj = Inr c'"
    "iteration_count (st c') = iteration_count (st ?cj) + 1" by blast
  have "step example_env ?cj = Inr c' \<and> iteration_count (st c') = 1 \<and> pos c' = Some Fixer"
    using c' by (auto simp: run_eval max2_state_def)
  with i c r1 r2 show ?thesis by blast
qed

section \<open>Progress and termination\<close>














section \<open>A file whose tests never pass\<close>




















section \<open>Runs with the language model disabled\<close>










end
